theory Spec2Isabelle
  imports Complex_Main "HOL-Library.Sublist" "HOL-Library.AList"
begin

section \<open>Strings as the scripts use them\<close>

text \<open>
  Text is a list of characters. The model covers ASCII text: the case mappings below
  change the letters a-z and A-Z only and leave every other character as it is, and the
  white space that \<open>trim\<close> strips is the ASCII part of the language's white space and line
  terminators (tab, line feed, vertical tab, form feed, carriage return, space).
\<close>

definition isWhiteSpace :: "char \<Rightarrow> bool" where
  "isWhiteSpace c = (c \<in> set [CHR 0x09, CHR 0x0A, CHR 0x0B, CHR 0x0C, CHR 0x0D, CHR 0x20])"

definition trimStart :: "string \<Rightarrow> string" where
  "trimStart s = dropWhile isWhiteSpace s"

definition trim :: "string \<Rightarrow> string" where
  "trim s = rev (dropWhile isWhiteSpace (rev (dropWhile isWhiteSpace s)))"

definition upper_char :: "char \<Rightarrow> char" where
  "upper_char c =
     (let n = (of_char c :: nat) in if 97 \<le> n \<and> n \<le> 122 then char_of (n - 32) else c)"

definition lower_char :: "char \<Rightarrow> char" where
  "lower_char c =
     (let n = (of_char c :: nat) in if 65 \<le> n \<and> n \<le> 90 then char_of (n + 32) else c)"

definition toUpperCase :: "string \<Rightarrow> string" where
  "toUpperCase s = map upper_char s"

definition toLowerCase :: "string \<Rightarrow> string" where
  "toLowerCase s = map lower_char s"

text \<open>\<open>s.startsWith(p)\<close> and \<open>s.includes(p)\<close>.\<close>

fun startsWith :: "string \<Rightarrow> string \<Rightarrow> bool" where
  "startsWith s [] = True"
| "startsWith [] (p # ps) = False"
| "startsWith (c # cs) (p # ps) = (c = p \<and> startsWith cs ps)"

fun includes_str :: "string \<Rightarrow> string \<Rightarrow> bool" where
  "includes_str [] p = startsWith [] p"
| "includes_str (c # cs) p = (startsWith (c # cs) p \<or> includes_str cs p)"

text \<open>\<open>xs.join(sep)\<close> on an array of strings.\<close>

fun join :: "string \<Rightarrow> string list \<Rightarrow> string" where
  "join sep [] = []"
| "join sep [x] = x"
| "join sep (x # y # ys) = x @ sep @ join sep (y # ys)"

text \<open>
  What the spec calls a case-insensitive test, in its own words: some stretch of the text
  equals the keyword when the case of letters is ignored, respectively the text begins
  with such a stretch.
\<close>

definition same_ignoring_case :: "string \<Rightarrow> string \<Rightarrow> bool" where
  "same_ignoring_case a b = (toLowerCase a = toLowerCase b)"

definition contains_ignoring_case :: "string \<Rightarrow> string \<Rightarrow> bool" where
  "contains_ignoring_case s kw =
     (\<exists>i \<in> {0..length s}. same_ignoring_case (take (length kw) (drop i s)) kw)"

definition starts_ignoring_case :: "string \<Rightarrow> string \<Rightarrow> bool" where
  "starts_ignoring_case s kw = same_ignoring_case (take (length kw) s) kw"


section \<open>SqlRenderer: the complexity label\<close>

datatype complexity_label = SimpleQuery | IntermediateQuery | ComplexAnalysis

text \<open>The score the memo accumulates, one \<open>if\<close> per keyword, in the order of the source.\<close>

definition complexity_score :: "string \<Rightarrow> nat" where
  "complexity_score code =
     (let upper = toUpperCase code;
          score = 0;
          score = (if includes_str upper ''JOIN'' then score + 2 else score);
          score = (if includes_str upper ''GROUP BY'' then score + 1 else score);
          score = (if includes_str upper ''HAVING'' then score + 2 else score);
          score = (if includes_str upper ''WITH'' then score + 2 else score);
          score = (if includes_str upper ''UNION'' then score + 2 else score);
          score = (if includes_str upper ''SELECT'' \<and> includes_str upper ''WHERE''
                   then score + 1 else score)
      in score)"

definition complexity :: "string \<Rightarrow> complexity_label" where
  "complexity code =
     (let score = complexity_score code
      in if score < 3 then SimpleQuery
         else if score < 6 then IntermediateQuery
         else ComplexAnalysis)"

text \<open>The weighted sum as the spec words it.\<close>

definition keyword_score :: "string \<Rightarrow> nat" where
  "keyword_score s =
     (if contains_ignoring_case s ''JOIN'' then 2 else 0)
   + (if contains_ignoring_case s ''GROUP BY'' then 1 else 0)
   + (if contains_ignoring_case s ''HAVING'' then 2 else 0)
   + (if contains_ignoring_case s ''WITH'' then 2 else 0)
   + (if contains_ignoring_case s ''UNION'' then 2 else 0)
   + (if contains_ignoring_case s ''SELECT'' \<and> contains_ignoring_case s ''WHERE'' then 1 else 0)"

definition tier_of_score :: "nat \<Rightarrow> complexity_label" where
  "tier_of_score n =
     (if n < 3 then SimpleQuery else if n < 6 then IntermediateQuery else ComplexAnalysis)"

definition plain_select :: string where
  "plain_select = ''SELECT * FROM t''"

definition grouped_join :: string where
  "grouped_join = ''SELECT a FROM t JOIN u ON ... GROUP BY a HAVING count(*)>1''"

definition cte_wrapped :: string where
  "cte_wrapped = ''WITH x AS ('' @ grouped_join @ '') SELECT * FROM x''"


section \<open>ChatMessage: the gate of the automatic run\<close>

text \<open>
  The test the auto-run effect applies to the text its pattern captured:
  \<open>sql = captured.trim()\<close>, then
  \<open>sql.toUpperCase().startsWith('SELECT') || sql.toUpperCase().startsWith('WITH')\<close>.
\<close>

definition autoRunEligible :: "string \<Rightarrow> bool" where
  "autoRunEligible captured =
     (let sql = trim captured
      in startsWith (toUpperCase sql) ''SELECT'' \<or> startsWith (toUpperCase sql) ''WITH'')"


section \<open>ChatMessage: the code block renderer\<close>

text \<open>
  \<open>/language-(\w+)/.exec(className || "")\<close>: the leftmost place where \<open>language-\<close> is
  followed by at least one word character; the group is the longest run of word
  characters there. A missing class name is read as the empty text.
\<close>

definition isWordChar :: "char \<Rightarrow> bool" where
  "isWordChar c =
     (let n = (of_char c :: nat)
      in (48 \<le> n \<and> n \<le> 57) \<or> (65 \<le> n \<and> n \<le> 90) \<or> (97 \<le> n \<and> n \<le> 122) \<or> n = 95)"

fun language_exec :: "string \<Rightarrow> string option" where
  "language_exec [] = None"
| "language_exec (c # cs) =
     (let w = takeWhile isWordChar (drop 9 (c # cs))
      in if startsWith (c # cs) ''language-'' \<and> w \<noteq> [] then Some w else language_exec cs)"

definition language_tag :: "string option \<Rightarrow> string option" where
  "language_tag className = language_exec (case className of None \<Rightarrow> [] | Some s \<Rightarrow> s)"

datatype block_kind = Sql | Diagram | Generic | Plain

text \<open>
  Which of the four renderings the \<open>code\<close> component returns: the diagram renderer, the
  SQL renderer with its result area, the titled generic code box, or the bare inline
  \<open>code\<close> element.
\<close>

definition code_kind :: "string option \<Rightarrow> block_kind" where
  "code_kind className =
     (let match = language_tag className;
          isSql = (case match of None \<Rightarrow> False | Some t \<Rightarrow> toLowerCase t = ''sql'');
          isMongodb = (case match of None \<Rightarrow> False | Some t \<Rightarrow> toLowerCase t = ''mongodb'');
          isMermaid = (case match of None \<Rightarrow> False | Some t \<Rightarrow> toLowerCase t = ''mermaid'')
      in if isMermaid then Diagram
         else if isSql \<or> isMongodb then Sql
         else if match \<noteq> None then Generic
         else Plain)"


text \<open>The classification as the spec words it, on the tag.\<close>

definition classify :: "string option \<Rightarrow> block_kind" where
  "classify tag =
     (case tag of
        None \<Rightarrow> Plain
      | Some t \<Rightarrow>
          if same_ignoring_case t ''sql'' \<or> same_ignoring_case t ''mongodb'' then Sql
          else if same_ignoring_case t ''mermaid'' then Diagram
          else if t \<noteq> [] then Generic
          else Plain)"


section \<open>Numbers and scalar values\<close>

text \<open>
  A number is not-a-number, an infinity or finite. A finite number carries the exact
  decimal value that was read: rounding to the nearest binary64 value is not modelled,
  except that a magnitude at or beyond the overflow threshold \<open>2^1024 - 2^970\<close> becomes an
  infinity. The sign of zero is not modelled.
\<close>

datatype jsnum = NaN | PosInf | NegInf | Fin rat

definition isNaN :: "jsnum \<Rightarrow> bool" where
  "isNaN n = (n = NaN)"

definition isFinite :: "jsnum \<Rightarrow> bool" where
  "isFinite n = (case n of Fin _ \<Rightarrow> True | _ \<Rightarrow> False)"

definition negate :: "jsnum \<Rightarrow> jsnum" where
  "negate n = (case n of NaN \<Rightarrow> NaN | PosInf \<Rightarrow> NegInf | NegInf \<Rightarrow> PosInf | Fin r \<Rightarrow> Fin (- r))"

definition overflow_threshold :: rat where
  "overflow_threshold = 2 ^ 1024 - 2 ^ 970"

definition round_to_double :: "rat \<Rightarrow> jsnum" where
  "round_to_double r =
     (if \<bar>r\<bar> < overflow_threshold then Fin r else if 0 < r then PosInf else NegInf)"

definition isDigit :: "char \<Rightarrow> bool" where
  "isDigit c = (let n = (of_char c :: nat) in 48 \<le> n \<and> n \<le> 57)"

definition digit_value :: "char \<Rightarrow> nat" where
  "digit_value c = of_char c - 48"

definition digits_value :: "string \<Rightarrow> nat" where
  "digits_value ds = foldl (\<lambda>a c. 10 * a + digit_value c) 0 ds"

definition scale10 :: "rat \<Rightarrow> int \<Rightarrow> rat" where
  "scale10 m e = (if 0 \<le> e then m * 10 ^ nat e else m / 10 ^ nat (- e))"

text \<open>
  The exponent part \<open>e\<close> or \<open>E\<close>, an optional sign, digits. Without digits there is no
  exponent part and nothing is consumed.
\<close>

definition read_exponent :: "string \<Rightarrow> int \<times> string" where
  "read_exponent s =
     (case s of
        [] \<Rightarrow> (0, s)
      | c # r \<Rightarrow>
          if c = CHR ''e'' \<or> c = CHR ''E'' then
            (let neg = (case r of [] \<Rightarrow> False | d # _ \<Rightarrow> d = CHR ''-'');
                 signed = (case r of [] \<Rightarrow> False | d # _ \<Rightarrow> d = CHR ''-'' \<or> d = CHR ''+'');
                 r1 = (if signed then tl r else r);
                 ds = takeWhile isDigit r1
             in if ds = [] then (0, s)
                else (if neg then - int (digits_value ds) else int (digits_value ds),
                      dropWhile isDigit r1))
          else (0, s))"

text \<open>
  The longest prefix that is an unsigned decimal literal of the string-to-number grammar:
  \<open>Infinity\<close>, or digits with an optional point and further digits, or a point and
  digits, each with an optional exponent part. The result is the value and the rest of
  the text; \<open>None\<close> when no prefix is a literal.
\<close>

definition read_unsigned :: "string \<Rightarrow> (jsnum \<times> string) option" where
  "read_unsigned s =
     (if startsWith s ''Infinity'' then Some (PosInf, drop 8 s)
      else
        let ip = takeWhile isDigit s;
            r1 = dropWhile isDigit s;
            dot = (case r1 of [] \<Rightarrow> False | c # _ \<Rightarrow> c = CHR ''.'');
            fp = (if dot then takeWhile isDigit (tl r1) else []);
            r2 = (if dot then dropWhile isDigit (tl r1) else r1)
        in if ip = [] \<and> fp = [] then None
           else
             let (e, r3) = read_exponent r2;
                 m = of_nat (digits_value ip) + of_nat (digits_value fp) / 10 ^ length fp
             in Some (round_to_double (scale10 m e), r3))"

definition read_signed :: "string \<Rightarrow> (jsnum \<times> string) option" where
  "read_signed s =
     (case s of
        [] \<Rightarrow> read_unsigned s
      | c # r \<Rightarrow>
          if c = CHR ''+'' then read_unsigned r
          else if c = CHR ''-'' then map_option (\<lambda>(v, rest). (negate v, rest)) (read_unsigned r)
          else read_unsigned s)"

text \<open>\<open>parseFloat\<close> on a text: leading white space is skipped, what follows the literal is ignored.\<close>

definition parseFloat :: "string \<Rightarrow> jsnum" where
  "parseFloat s = (case read_signed (trimStart s) of None \<Rightarrow> NaN | Some (v, _) \<Rightarrow> v)"




text \<open>
  The scalar values a table cell or a result row holds. \<open>JUndefined\<close> is also what reading
  a missing key gives.
\<close>

datatype jsval = JUndefined | JNull | JBool bool | JNum jsnum | JStr string



text \<open>
  An object with text keys: assignment replaces the value of a key it has, else adds the
  key. Only the keys the code stores are modelled, not the properties every object
  inherits (\<open>constructor\<close>, \<open>__proto__\<close> and the like); the values are scalars.
\<close>

type_synonym js_object = "(string \<times> jsval) list"

definition get_prop :: "js_object \<Rightarrow> string \<Rightarrow> jsval" where
  "get_prop obj k = (case map_of obj k of None \<Rightarrow> JUndefined | Some v \<Rightarrow> v)"

definition set_prop :: "js_object \<Rightarrow> string \<Rightarrow> jsval \<Rightarrow> js_object" where
  "set_prop obj k v = AList.update k v obj"


section \<open>ChatMessage: table extraction\<close>

text \<open>
  A node of the syntax tree as the extractor reads it: \<open>null\<close> or \<open>undefined\<close>, or an
  object of which the fields \<open>type\<close>, \<open>tagName\<close>, \<open>value\<close> and \<open>children\<close> may each be
  missing. A text leaf has type \<open>text\<close> and a value, an element a tag name and children.
\<close>

datatype hast =
    Nullish
  | Node (node_type: "string option") (tagName: "string option")
         (node_value: "string option") (children: "hast list option")

definition text_leaf :: "string \<Rightarrow> hast" where
  "text_leaf s = Node (Some ''text'') None (Some s) None"

definition element :: "string \<Rightarrow> hast list \<Rightarrow> hast" where
  "element tag kids = Node (Some ''element'') (Some tag) None (Some kids)"

datatype js_error = TypeError

definition bind_err :: "'e + 'a \<Rightarrow> ('a \<Rightarrow> 'e + 'b) \<Rightarrow> 'e + 'b" where
  "bind_err m f = (case m of Inl e \<Rightarrow> Inl e | Inr x \<Rightarrow> f x)"

text \<open>\<open>getText\<close>: the texts of the leaves below a node, left to right.\<close>

fun getText :: "hast \<Rightarrow> string" where
  "getText Nullish = []"
| "getText (Node ty tg v kids) =
     (if ty = Some ''text'' then (case v of None \<Rightarrow> [] | Some s \<Rightarrow> s)
      else (case kids of None \<Rightarrow> [] | Some cs \<Rightarrow> concat (map getText cs)))"

text \<open>Reading \<open>c.tagName\<close> or \<open>c.children\<close> throws on \<open>null\<close> and \<open>undefined\<close>.\<close>

definition tag_is :: "string \<Rightarrow> hast \<Rightarrow> js_error + bool" where
  "tag_is t c = (case c of Nullish \<Rightarrow> Inl TypeError | Node _ tg _ _ \<Rightarrow> Inr (tg = Some t))"

definition children_of :: "hast \<Rightarrow> js_error + hast list option" where
  "children_of c = (case c of Nullish \<Rightarrow> Inl TypeError | Node _ _ _ kids \<Rightarrow> Inr kids)"

text \<open>\<open>xs.find(c => c.tagName === t)\<close> stops at the first hit; \<open>xs.filter(...)\<close> visits all.\<close>

fun find_by_tag :: "string \<Rightarrow> hast list \<Rightarrow> js_error + hast option" where
  "find_by_tag t [] = Inr None"
| "find_by_tag t (c # cs) =
     bind_err (tag_is t c) (\<lambda>hit. if hit then Inr (Some c) else find_by_tag t cs)"

fun filter_by_tag :: "string \<Rightarrow> hast list \<Rightarrow> js_error + hast list" where
  "filter_by_tag t [] = Inr []"
| "filter_by_tag t (c # cs) =
     bind_err (tag_is t c) (\<lambda>hit.
     bind_err (filter_by_tag t cs) (\<lambda>rest. Inr (if hit then c # rest else rest)))"

fun map_err :: "('a \<Rightarrow> 'e + 'b) \<Rightarrow> 'a list \<Rightarrow> 'e + 'b list" where
  "map_err f [] = Inr []"
| "map_err f (x # xs) = bind_err (f x) (\<lambda>y. bind_err (map_err f xs) (\<lambda>ys. Inr (y # ys)))"

text \<open>
  \<open>/^-?[\d,]+(\.\d+)?$/.test(textValue)\<close>. Every quantifier of the pattern is greedy and
  what may follow a run can never start with a character of the run, so the match is
  decided without backtracking: an optional minus, the longest run of digits and commas,
  which must not be empty, then either the end or a point and a non-empty run of digits up
  to the end.
\<close>

definition isDigitOrComma :: "char \<Rightarrow> bool" where
  "isDigitOrComma c = (isDigit c \<or> c = CHR '','')"

definition numeric_pattern :: "string \<Rightarrow> bool" where
  "numeric_pattern textValue =
     (let s1 = (case textValue of [] \<Rightarrow> [] | c # r \<Rightarrow> if c = CHR ''-'' then r else textValue);
          run = takeWhile isDigitOrComma s1;
          rest = dropWhile isDigitOrComma s1
      in run \<noteq> [] \<and>
         (case rest of
            [] \<Rightarrow> True
          | c # fp \<Rightarrow> c = CHR ''.'' \<and> fp \<noteq> [] \<and> list_all isDigit fp))"

text \<open>
  The same shape in the spec's words: an optional leading minus, digits and commas, an
  optional decimal point and digits, and nothing else.
\<close>

definition numeric_shape :: "string \<Rightarrow> bool" where
  "numeric_shape v =
     (\<exists>sgn ip fr. v = sgn @ ip @ fr
        \<and> (sgn = [] \<or> sgn = ''-'')
        \<and> ip \<noteq> [] \<and> list_all isDigitOrComma ip
        \<and> (fr = [] \<or> (\<exists>fp. fr = CHR ''.'' # fp \<and> fp \<noteq> [] \<and> list_all isDigit fp)))"

definition remove_commas :: "string \<Rightarrow> string" where
  "remove_commas s = filter (\<lambda>c. c \<noteq> CHR '','') s"

text \<open>The value stored for a cell: the number when the two tests pass, else the text.\<close>

definition cellValue :: "string \<Rightarrow> jsval" where
  "cellValue textValue =
     (let cleanNum = remove_commas textValue;
          num = parseFloat cleanNum
      in if \<not> isNaN num \<and> isFinite num then
           (if numeric_pattern textValue then JNum num else JStr textValue)
         else JStr textValue)"

text \<open>
  \<open>cells.forEach((cell, index) => ...)\<close>: the cell at a position below the number of
  headers is stored under the header at that position.
\<close>

definition rowData_of :: "string list \<Rightarrow> hast list \<Rightarrow> js_object" where
  "rowData_of hs cells =
     foldl (\<lambda>rowData (index, cell).
              if index < length hs
              then set_prop rowData (hs ! index) (cellValue (trim (getText cell)))
              else rowData)
       [] (zip [0..<length cells] cells)"

definition row_of :: "string list \<Rightarrow> hast \<Rightarrow> js_error + js_object" where
  "row_of hs row =
     bind_err (children_of row) (\<lambda>kids.
     bind_err (case kids of None \<Rightarrow> Inl TypeError | Some cs \<Rightarrow> filter_by_tag ''td'' cs) (\<lambda>cells.
     Inr (rowData_of hs cells)))"

record table_info =
  headers :: "string list"
  data :: "js_object list"

text \<open>The body of the \<open>try\<close> block: \<open>Inl\<close> is a thrown error, \<open>Inr None\<close> a returned \<open>null\<close>.\<close>

definition extractTableData_try :: "hast \<Rightarrow> js_error + table_info option" where
  "extractTableData_try node =
     bind_err (children_of node) (\<lambda>kids.
     let children = (case kids of None \<Rightarrow> [] | Some cs \<Rightarrow> cs) in
     bind_err (find_by_tag ''thead'' children) (\<lambda>thead.
     bind_err (find_by_tag ''tbody'' children) (\<lambda>tbody.
     case thead of
       None \<Rightarrow> Inr None
     | Some th \<Rightarrow>
         bind_err (children_of th) (\<lambda>th_kids.
         bind_err (case th_kids of None \<Rightarrow> Inr None | Some cs \<Rightarrow> find_by_tag ''tr'' cs) (\<lambda>headerRow.
         case headerRow of
           None \<Rightarrow> Inr None
         | Some hr \<Rightarrow>
             bind_err (children_of hr) (\<lambda>hr_kids.
             bind_err (case hr_kids of None \<Rightarrow> Inl TypeError | Some cs \<Rightarrow> filter_by_tag ''th'' cs) (\<lambda>ths.
             let hs = map (\<lambda>th. trim (getText th)) ths in
             if length hs = 0 then Inr None
             else
               bind_err (case tbody of
                           None \<Rightarrow> Inr []
                         | Some tb \<Rightarrow>
                             bind_err (children_of tb) (\<lambda>tb_kids.
                             case tb_kids of None \<Rightarrow> Inl TypeError | Some cs \<Rightarrow> filter_by_tag ''tr'' cs))
                 (\<lambda>dataRows.
               bind_err (map_err (row_of hs) dataRows) (\<lambda>rows.
               if length rows = 0 then Inr None
               else Inr (Some \<lparr>headers = hs, data = rows\<rparr>))))))))))"

text \<open>\<open>extractTableData\<close>: the \<open>catch\<close> turns every thrown error into \<open>null\<close>.\<close>

definition extractTableData :: "hast \<Rightarrow> table_info option" where
  "extractTableData node = (case extractTableData_try node of Inl e \<Rightarrow> None | Inr r \<Rightarrow> r)"

text \<open>The table of the spec's example: headers name and amount, one row.\<close>

definition widget_table :: hast where
  "widget_table =
     element ''table''
       [element ''thead''
          [element ''tr'' [element ''th'' [text_leaf ''name''], element ''th'' [text_leaf ''amount'']]],
        element ''tbody''
          [element ''tr'' [element ''td'' [text_leaf ''Widget''], element ''td'' [text_leaf ''1,234.50'']]]]"


section \<open>DataVisualizer\<close>




text \<open>
  The text a template literal makes of a value. The text of a number is left to the
  engine and is a parameter here.
\<close>

definition template_text :: "(jsnum \<Rightarrow> string) \<Rightarrow> jsval \<Rightarrow> string" where
  "template_text numberText v =
     (case v of
        JUndefined \<Rightarrow> ''undefined''
      | JNull \<Rightarrow> ''null''
      | JBool b \<Rightarrow> (if b then ''true'' else ''false'')
      | JNum n \<Rightarrow> numberText n
      | JStr s \<Rightarrow> s)"

definition dquote :: string where
  "dquote = [CHR 0x22]"

definition quoted_cell :: "(jsnum \<Rightarrow> string) \<Rightarrow> js_object \<Rightarrow> string \<Rightarrow> string" where
  "quoted_cell numberText row h = dquote @ template_text numberText (get_prop row h) @ dquote"

text \<open>The text \<open>handleDownload\<close> puts into the file.\<close>

definition csvContent :: "(jsnum \<Rightarrow> string) \<Rightarrow> string list \<Rightarrow> js_object list \<Rightarrow> string" where
  "csvContent numberText hs rows =
     join ''\<newline>''
       (join '','' hs # map (\<lambda>row. join '','' (map (\<lambda>h. quoted_cell numberText row h) hs)) rows)"

text \<open>
  Splitting at every occurrence of a character, as the spec's reader of the export does
  by line and by comma. The empty text splits into one empty piece.
\<close>

fun split_on :: "char \<Rightarrow> string \<Rightarrow> string list" where
  "split_on sep [] = [[]]"
| "split_on sep (c # cs) =
     (if c = sep then [] # split_on sep cs
      else (case split_on sep cs of [] \<Rightarrow> [[c]] | w # ws \<Rightarrow> (c # w) # ws))"

text \<open>A dataset whose only header holds a comma, and one whose only value holds a line break.\<close>

definition comma_header_rows :: "js_object list" where
  "comma_header_rows = [[(''Revenue, USD'', JStr ''10'')]]"

definition multiline_rows :: "js_object list" where
  "multiline_rows = [[(''note'', JStr ''first line\<newline>second line'')]]"

definition zero_text :: "jsnum \<Rightarrow> string" where
  "zero_text n = ''0''"


section \<open>ChatMessage: running queries\<close>

datatype msg_role = User | Assistant

text \<open>Of a message the component reads the role and the content.\<close>

record message =
  role :: msg_role
  content :: string

text \<open>The connection descriptor is only passed on to the backend; it is a text here.\<close>

record db_context =
  connection :: string
  schema :: string

text \<open>What the execution backend answers, or the error text of a rejected call.\<close>

record query_response =
  success :: bool
  columns :: "string list option"
  rows :: "js_object list option"
  error :: "string option"

datatype call_outcome = Answered query_response | Rejected string

record execution_result =
  res_headers :: "string list"
  res_data :: "js_object list"
  res_error :: "string option"

datatype call_site = AutoRun | RunButton

text \<open>
  The state of one rendered message: the two state cells and the reference cell of the
  component and the \<open>dbContext\<close> of its latest render. The last three fields are not the
  component's: they record the calls to \<open>executeQuery\<close> in the order they were made (with
  the place that made them), the numbers of the calls that have not come back, and the
  outcomes in the order they came back.
\<close>

record chat_state =
  isExecuting :: bool
  executionResult :: "execution_result option"
  hasAutoRun :: bool
  dbContext :: "db_context option"
  requests :: "(call_site \<times> string \<times> string) list"
  in_flight :: "nat list"
  settled :: "(nat \<times> call_outcome) list"

definition initial_state :: chat_state where
  "initial_state =
     \<lparr>isExecuting = False, executionResult = None, hasAutoRun = False, dbContext = None,
      requests = [], in_flight = [], settled = []\<rparr>"

text \<open>\<open>handleRunQuery\<close> up to its \<open>await\<close>.\<close>

definition handleRunQuery :: "call_site \<Rightarrow> db_context option \<Rightarrow> string \<Rightarrow> chat_state \<Rightarrow> chat_state" where
  "handleRunQuery site ctx sql st =
     (case ctx of
        None \<Rightarrow> st
      | Some c \<Rightarrow>
          st\<lparr>isExecuting := True, executionResult := None,
             requests := requests st @ [(site, connection c, sql)],
             in_flight := in_flight st @ [length (requests st)]\<rparr>)"

text \<open>What \<open>handleRunQuery\<close> stores when its call comes back.\<close>

definition result_of :: "call_outcome \<Rightarrow> execution_result" where
  "result_of outcome =
     (case outcome of
        Answered result \<Rightarrow>
          (if success result \<and> columns result \<noteq> None \<and> rows result \<noteq> None
           then \<lparr>res_headers = the (columns result), res_data = the (rows result), res_error = None\<rparr>
           else \<lparr>res_headers = [], res_data = [],
                 res_error = Some (case error result of
                                     None \<Rightarrow> ''Unknown error occurred''
                                   | Some e \<Rightarrow> if e = [] then ''Unknown error occurred'' else e)\<rparr>)
      | Rejected err \<Rightarrow> \<lparr>res_headers = [], res_data = [], res_error = Some err\<rparr>)"

definition handleRunQuery_resume :: "call_outcome \<Rightarrow> chat_state \<Rightarrow> chat_state" where
  "handleRunQuery_resume outcome st =
     st\<lparr>executionResult := Some (result_of outcome), isExecuting := False\<rparr>"

text \<open>
  The first place where a pattern text occurs: what stands before it and what follows it.
\<close>

fun split_at_first :: "string \<Rightarrow> string \<Rightarrow> (string \<times> string) option" where
  "split_at_first p [] = (if p = [] then Some ([], []) else None)"
| "split_at_first p (c # cs) =
     (if startsWith (c # cs) p then Some ([], drop (length p) (c # cs))
      else map_option (\<lambda>(before, after). (c # before, after)) (split_at_first p cs))"

text \<open>
  \<open>message.content.match(/```sql\n([\s\S]*?)\n```/)\<close>, its group: the match starts at the
  leftmost \<open>```sql\<close> followed by a line feed, and the lazy group ends before the first
  line feed followed by \<open>```\<close> after it. When no such end follows the leftmost start, none
  follows a later start either, and there is no match.
\<close>

definition sqlMatch :: "string \<Rightarrow> string option" where
  "sqlMatch text =
     (case split_at_first ''```sql\<newline>'' text of
        None \<Rightarrow> None
      | Some (before, rest) \<Rightarrow>
          (case split_at_first ''\<newline>```'' rest of
             None \<Rightarrow> None
           | Some (captured, after) \<Rightarrow> Some captured))"

text \<open>The auto-run effect.\<close>

definition autoRunEffect :: "message \<Rightarrow> chat_state \<Rightarrow> chat_state" where
  "autoRunEffect msg st =
     (if dbContext st = None \<or> hasAutoRun st \<or> role msg \<noteq> Assistant then st
      else
        (case sqlMatch (content msg) of
           None \<Rightarrow> st
         | Some captured \<Rightarrow>
             if captured \<noteq> [] \<and> autoRunEligible captured
             then handleRunQuery AutoRun (dbContext st) (trim captured) (st\<lparr>hasAutoRun := True\<rparr>)
             else st))"

text \<open>
  What can happen to a rendered message: it is rendered with the current \<open>dbContext\<close> and
  its effect runs; the run button of a block is pressed; a call in flight comes back.
\<close>

datatype event = Render "db_context option" | RunClick string | Settle nat call_outcome

definition step :: "message \<Rightarrow> chat_state \<Rightarrow> event \<Rightarrow> chat_state" where
  "step msg st ev =
     (case ev of
        Render ctx \<Rightarrow> autoRunEffect msg (st\<lparr>dbContext := ctx\<rparr>)
      | RunClick sql \<Rightarrow> handleRunQuery RunButton (dbContext st) sql st
      | Settle i outcome \<Rightarrow>
          if i \<in> set (in_flight st)
          then handleRunQuery_resume outcome
                 (st\<lparr>in_flight := removeAll i (in_flight st), settled := settled st @ [(i, outcome)]\<rparr>)
          else st)"

definition run_events :: "message \<Rightarrow> event list \<Rightarrow> chat_state" where
  "run_events msg evs = foldl (step msg) initial_state evs"

definition auto_requests :: "chat_state \<Rightarrow> (call_site \<times> string \<times> string) list" where
  "auto_requests st = filter (\<lambda>r. fst r = AutoRun) (requests st)"

text \<open>
  A fenced block as the markdown text writes it. For a fence with a tag the markdown
  renderer hands the code component the class name \<open>language-\<close> followed by the tag.
\<close>

definition fence :: "string \<Rightarrow> string \<Rightarrow> string" where
  "fence tag body = ''```'' @ tag @ ''\<newline>'' @ body @ ''\<newline>```''"

text \<open>A connection context, two messages and two answers of the backend as examples.\<close>

definition demo_context :: db_context where
  "demo_context = \<lparr>connection = ''db'', schema = []\<rparr>"

definition two_block_message :: message where
  "two_block_message =
     \<lparr>role = Assistant,
      content = fence ''SQL'' ''SELECT 1'' @ ''\<newline>'' @ fence ''sql'' ''SELECT 2''\<rparr>"

definition one_block_message :: message where
  "one_block_message = \<lparr>role = Assistant, content = fence ''sql'' ''SELECT 1''\<rparr>"

definition rows_answer :: call_outcome where
  "rows_answer =
     Answered \<lparr>success = True, columns = Some [''n''], rows = Some [[(''n'', JNum (Fin 1))]],
               error = None\<rparr>"

definition timeout_answer :: call_outcome where
  "timeout_answer =
     Answered \<lparr>success = False, columns = None, rows = None, error = Some ''timeout''\<rparr>"


section \<open>Example tables and datasets\<close>

text \<open>Whether a header group stands among the immediate children of the root, in the spec's words.\<close>

definition has_header_group :: "hast \<Rightarrow> bool" where
  "has_header_group node =
     (case node of
        Nullish \<Rightarrow> False
      | Node _ _ _ kids \<Rightarrow>
          (case kids of None \<Rightarrow> False | Some cs \<Rightarrow> list_ex (\<lambda>c. tag_is ''thead'' c = Inr True) cs))"

definition headless_table :: hast where
  "headless_table =
     element ''table'' [element ''tbody'' [element ''tr'' [element ''td'' [text_leaf ''Widget'']]]]"

definition bodiless_table :: hast where
  "bodiless_table =
     element ''table'' [element ''thead'' [element ''tr'' [element ''th'' [text_leaf ''name'']]]]"

definition headerless_row_table :: hast where
  "headerless_row_table =
     element ''table''
       [element ''thead'' [element ''tr'' []],
        element ''tbody'' [element ''tr'' [element ''td'' [text_leaf ''Widget'']]]]"

text \<open>A table whose body row has no \<open>children\<close> field, and one with a \<open>null\<close> among its children.\<close>

definition broken_row_table :: hast where
  "broken_row_table =
     element ''table''
       [element ''thead'' [element ''tr'' [element ''th'' [text_leaf ''name'']]],
        element ''tbody'' [Node (Some ''element'') (Some ''tr'') None None]]"

definition null_child_table :: hast where
  "null_child_table =
     element ''table''
       [element ''thead'' [element ''tr'' [element ''th'' [text_leaf ''name'']]],
        Nullish,
        element ''tbody'' [element ''tr'' [element ''td'' [text_leaf ''Widget'']]]]"



text \<open>
  A re-run pressed while the automatic run is in flight: the later call comes back first
  with rows, the earlier one afterwards with an error.
\<close>

definition overtaking_events :: "event list" where
  "overtaking_events =
     [Render (Some demo_context), RunClick ''SELECT 1'', Settle 1 rows_answer, Settle 0 timeout_answer]"


definition in_order_events :: "event list" where
  "in_order_events =
     [Render (Some demo_context), RunClick ''SELECT 1'', Settle 0 timeout_answer, Settle 1 rows_answer]"

definition two_sql_message :: message where
  "two_sql_message =
     \<lparr>role = Assistant,
      content = ''Two queries:\<newline>'' @ fence ''sql'' ''  select 1 '' @ ''\<newline>and\<newline>''
                  @ fence ''sql'' ''SELECT 2''\<rparr>"

definition city_rows :: "js_object list" where
  "city_rows =
     [[(''city'', JStr ''Oslo''), (''note'', JStr ''cold, dry'')],
      [(''city'', JStr ''Rome''), (''note'', JNull)]]"

text \<open>Two properties of the state that every event keeps.\<close>

definition last_settled_shown :: "chat_state \<Rightarrow> bool" where
  "last_settled_shown st =
     (in_flight st = [] \<longrightarrow>
        executionResult st =
          (if settled st = [] then None else Some (result_of (snd (last (settled st))))))"

definition calls_accounted :: "chat_state \<Rightarrow> bool" where
  "calls_accounted st =
     (distinct (map fst (settled st) @ in_flight st)
      \<and> set (map fst (settled st) @ in_flight st) = {..<length (requests st)})"


section \<open>Facts about the string operations\<close>

lemma startsWith_prefix: "startsWith s p \<longleftrightarrow> prefix p s"
  by (induction s p rule: startsWith.induct) auto

lemma startsWith_take: "startsWith s p \<longleftrightarrow> take (length p) s = p"
  by (induction s p rule: startsWith.induct) auto

lemma includes_str_drop: "includes_str s p \<longleftrightarrow> (\<exists>i \<in> {0..length s}. startsWith (drop i s) p)"
proof (induction s)
  case Nil
  show ?case by simp
next
  case (Cons c cs)
  have "(\<exists>i \<in> {0..length (c # cs)}. startsWith (drop i (c # cs)) p)
        \<longleftrightarrow> startsWith (c # cs) p \<or> (\<exists>j \<in> {0..length cs}. startsWith (drop j cs) p)"
  proof
    assume "\<exists>i \<in> {0..length (c # cs)}. startsWith (drop i (c # cs)) p"
    then obtain i where i: "i \<le> length (c # cs)" "startsWith (drop i (c # cs)) p" by auto
    show "startsWith (c # cs) p \<or> (\<exists>j \<in> {0..length cs}. startsWith (drop j cs) p)"
    proof (cases i)
      case 0
      with i show ?thesis by simp
    next
      case (Suc j)
      with i have "j \<in> {0..length cs}" "startsWith (drop j cs) p" by auto
      then show ?thesis by blast
    qed
  next
    assume "startsWith (c # cs) p \<or> (\<exists>j \<in> {0..length cs}. startsWith (drop j cs) p)"
    then show "\<exists>i \<in> {0..length (c # cs)}. startsWith (drop i (c # cs)) p"
    proof
      assume "startsWith (c # cs) p"
      then have "startsWith (drop 0 (c # cs)) p" by simp
      then show ?thesis by (intro bexI[of _ 0]) auto
    next
      assume "\<exists>j \<in> {0..length cs}. startsWith (drop j cs) p"
      then obtain j where "j \<le> length cs" "startsWith (drop j cs) p" by auto
      then have "Suc j \<in> {0..length (c # cs)}" "startsWith (drop (Suc j) (c # cs)) p" by auto
      then show ?thesis by blast
    qed
  qed
  with Cons show ?case by simp
qed

lemma of_char_upper: "(of_char (upper_char c) :: nat) =
   (if 97 \<le> (of_char c :: nat) \<and> (of_char c :: nat) \<le> 122 then of_char c - 32 else of_char c)"
proof -
  have "(of_char c :: nat) - 32 < 256"
    using nat_of_char_less_256[of c] by arith
  then show ?thesis
    by (simp add: upper_char_def Let_def)
qed

lemma of_char_lower: "(of_char (lower_char c) :: nat) =
   (if 65 \<le> (of_char c :: nat) \<and> (of_char c :: nat) \<le> 90 then of_char c + 32 else of_char c)"
  by (simp add: lower_char_def Let_def)

lemma fold_case_nat:
  fixes n m :: nat
  shows "((if 97 \<le> n \<and> n \<le> 122 then n - 32 else n) = (if 97 \<le> m \<and> m \<le> 122 then m - 32 else m))
     \<longleftrightarrow> ((if 65 \<le> n \<and> n \<le> 90 then n + 32 else n) = (if 65 \<le> m \<and> m \<le> 90 then m + 32 else m))"
  by (simp split: if_splits) arith

lemma upper_eq_iff_lower_eq: "upper_char c = upper_char d \<longleftrightarrow> lower_char c = lower_char d"
proof -
  have "upper_char c = upper_char d \<longleftrightarrow> (of_char (upper_char c) :: nat) = of_char (upper_char d)"
    by simp
  also have "\<dots> \<longleftrightarrow> (of_char (lower_char c) :: nat) = of_char (lower_char d)"
    unfolding of_char_upper of_char_lower by (rule fold_case_nat)
  also have "\<dots> \<longleftrightarrow> lower_char c = lower_char d"
    by simp
  finally show ?thesis .
qed

lemma map_upper_eq_iff: "map upper_char a = map upper_char b \<longleftrightarrow> map lower_char a = map lower_char b"
proof (induction a arbitrary: b)
  case Nil
  show ?case by simp
next
  case (Cons x xs)
  show ?case
  proof (cases b)
    case Nil
    then show ?thesis by simp
  next
    case (Cons y ys)
    with Cons.IH[of ys] show ?thesis by (simp add: upper_eq_iff_lower_eq)
  qed
qed

lemma startsWith_upper: 
  "startsWith (toUpperCase s) (toUpperCase kw) \<longleftrightarrow> starts_ignoring_case s kw"
proof -
  have "startsWith (toUpperCase s) (toUpperCase kw) \<longleftrightarrow> map upper_char (take (length kw) s) = map upper_char kw"
    by (simp add: startsWith_take toUpperCase_def take_map)
  then show ?thesis
    by (simp add: starts_ignoring_case_def same_ignoring_case_def toLowerCase_def map_upper_eq_iff)
qed

lemma includes_upper:
  "includes_str (toUpperCase s) (toUpperCase kw) \<longleftrightarrow> contains_ignoring_case s kw"
proof -
  have "\<And>i. startsWith (drop i (toUpperCase s)) (toUpperCase kw)
        \<longleftrightarrow> same_ignoring_case (take (length kw) (drop i s)) kw"
    using startsWith_upper[of "drop _ s" kw]
    by (simp add: toUpperCase_def drop_map starts_ignoring_case_def)
  then show ?thesis
    by (simp add: includes_str_drop contains_ignoring_case_def toUpperCase_def)
qed

lemma kw_upper: "toUpperCase ''JOIN'' = ''JOIN''" "toUpperCase ''GROUP BY'' = ''GROUP BY''"
  "toUpperCase ''HAVING'' = ''HAVING''" "toUpperCase ''WITH'' = ''WITH''"
  "toUpperCase ''UNION'' = ''UNION''" "toUpperCase ''SELECT'' = ''SELECT''"
  "toUpperCase ''WHERE'' = ''WHERE''"
  by (simp_all add: toUpperCase_def upper_char_def)


section \<open>The complexity label\<close>

lemma complexity_score_keyword_score: "complexity_score code = keyword_score code"
  using includes_upper[of code "''JOIN''"] includes_upper[of code "''GROUP BY''"]
    includes_upper[of code "''HAVING''"] includes_upper[of code "''WITH''"]
    includes_upper[of code "''UNION''"] includes_upper[of code "''SELECT''"]
    includes_upper[of code "''WHERE''"]
  unfolding kw_upper
  by (simp add: complexity_score_def keyword_score_def Let_def)

lemma complexity_tier_of_score: "complexity code = tier_of_score (complexity_score code)"
  by (simp add: complexity_def tier_of_score_def Let_def)

lemma score_plain_select: "complexity_score plain_select = 0"
  by code_simp

lemma score_grouped_join: "complexity_score grouped_join = 5"
  by code_simp

lemma score_cte_wrapped: "complexity_score cte_wrapped = 7"
  by code_simp

lemma keyword_score_join_group_having:
  assumes "contains_ignoring_case s ''JOIN''" "contains_ignoring_case s ''GROUP BY''"
    "contains_ignoring_case s ''HAVING''"
    "\<not> contains_ignoring_case s ''WITH''" "\<not> contains_ignoring_case s ''UNION''"
    "\<not> contains_ignoring_case s ''WHERE''"
  shows "keyword_score s = 5"
  using assms by (simp add: keyword_score_def)

text \<open>
  C8. For every SQL text the label is the thresholded sum of the case-insensitive
  substring tests JOIN (+2), GROUP BY (+1), HAVING (+2), WITH (+2), UNION (+2) and SELECT
  together with WHERE (+1): below 3 the query is simple, from 3 to 5 intermediate, from 6
  on complex. \<open>SELECT * FROM t\<close> scores 0; a query with JOIN, GROUP BY and HAVING and none
  of WITH, UNION and WHERE scores 5, as the example with these three does; the same
  query wrapped in a WITH clause scores 7.
\<close>

theorem complexity_thresholded_keyword_sum:
  "complexity code = tier_of_score (keyword_score code)
   \<and> complexity_score code = keyword_score code
   \<and> (contains_ignoring_case code ''JOIN'' \<and> contains_ignoring_case code ''GROUP BY''
        \<and> contains_ignoring_case code ''HAVING'' \<and> \<not> contains_ignoring_case code ''WITH''
        \<and> \<not> contains_ignoring_case code ''UNION'' \<and> \<not> contains_ignoring_case code ''WHERE''
      \<longrightarrow> complexity_score code = 5 \<and> complexity code = IntermediateQuery)
   \<and> complexity_score plain_select = 0 \<and> complexity plain_select = SimpleQuery
   \<and> complexity_score grouped_join = 5 \<and> complexity grouped_join = IntermediateQuery
   \<and> complexity_score cte_wrapped = 7 \<and> complexity cte_wrapped = ComplexAnalysis"
proof -
  have general: "complexity c = tier_of_score (keyword_score c)" for c
    by (simp add: complexity_tier_of_score complexity_score_keyword_score)
  have five: "complexity_score code = 5 \<and> complexity code = IntermediateQuery"
    if "contains_ignoring_case code ''JOIN'' \<and> contains_ignoring_case code ''GROUP BY''
        \<and> contains_ignoring_case code ''HAVING'' \<and> \<not> contains_ignoring_case code ''WITH''
        \<and> \<not> contains_ignoring_case code ''UNION'' \<and> \<not> contains_ignoring_case code ''WHERE''"
    using that keyword_score_join_group_having[of code]
    by (simp add: complexity_tier_of_score complexity_score_keyword_score tier_of_score_def)
  have "complexity plain_select = SimpleQuery"
    by (simp add: complexity_tier_of_score score_plain_select tier_of_score_def)
  moreover have "complexity grouped_join = IntermediateQuery"
    by (simp add: complexity_tier_of_score score_grouped_join tier_of_score_def)
  moreover have "complexity cte_wrapped = ComplexAnalysis"
    by (simp add: complexity_tier_of_score score_cte_wrapped tier_of_score_def)
  ultimately show ?thesis
    using general[of code] five complexity_score_keyword_score[of code] score_plain_select
      score_grouped_join score_cte_wrapped
    by blast
qed

lemma grouped_join_keywords:
  "includes_str (toUpperCase grouped_join) ''JOIN''"
  "includes_str (toUpperCase grouped_join) ''GROUP BY''"
  "includes_str (toUpperCase grouped_join) ''HAVING''"
  "\<not> includes_str (toUpperCase grouped_join) ''WITH''"
  "\<not> includes_str (toUpperCase grouped_join) ''UNION''"
  "\<not> includes_str (toUpperCase grouped_join) ''WHERE''"
  by code_simp+

theorem complexity_thresholded_keyword_sum_witness:
  "contains_ignoring_case grouped_join ''JOIN'' \<and> contains_ignoring_case grouped_join ''GROUP BY''
   \<and> contains_ignoring_case grouped_join ''HAVING'' \<and> \<not> contains_ignoring_case grouped_join ''WITH''
   \<and> \<not> contains_ignoring_case grouped_join ''UNION'' \<and> \<not> contains_ignoring_case grouped_join ''WHERE''
   \<and> complexity_score grouped_join = 5 \<and> complexity grouped_join = IntermediateQuery"
proof -
  have h: "contains_ignoring_case grouped_join ''JOIN'' \<and> contains_ignoring_case grouped_join ''GROUP BY''
        \<and> contains_ignoring_case grouped_join ''HAVING'' \<and> \<not> contains_ignoring_case grouped_join ''WITH''
        \<and> \<not> contains_ignoring_case grouped_join ''UNION'' \<and> \<not> contains_ignoring_case grouped_join ''WHERE''"
    using grouped_join_keywords
      includes_upper[of grouped_join "''JOIN''"] includes_upper[of grouped_join "''GROUP BY''"]
      includes_upper[of grouped_join "''HAVING''"] includes_upper[of grouped_join "''WITH''"]
      includes_upper[of grouped_join "''UNION''"] includes_upper[of grouped_join "''WHERE''"]
    unfolding kw_upper by simp
  from complexity_thresholded_keyword_sum[of grouped_join] h
  have "complexity_score grouped_join = 5 \<and> complexity grouped_join = IntermediateQuery"
    by blast
  with h show ?thesis by simp
qed


section \<open>The gate of the automatic run\<close>

lemma eligible_select_lowercase: "autoRunEligible ''  select 1''"
  by code_simp

lemma not_eligible_drop: "\<not> autoRunEligible ''DROP TABLE x''"
  by code_simp

text \<open>
  C4. A text is eligible for the automatic run exactly when, after trimming, it begins
  with SELECT or WITH, the case of letters ignored. \<open>"  select 1"\<close> is eligible (leading
  white space is ignored) and \<open>"DROP TABLE x"\<close> is not.
\<close>

theorem auto_run_eligibility:
  "(autoRunEligible s \<longleftrightarrow>
      starts_ignoring_case (trim s) ''SELECT'' \<or> starts_ignoring_case (trim s) ''WITH'')
   \<and> autoRunEligible ''  select 1''
   \<and> \<not> autoRunEligible ''DROP TABLE x''"
  using startsWith_upper[of "trim s" "''SELECT''"] startsWith_upper[of "trim s" "''WITH''"]
    eligible_select_lowercase not_eligible_drop
  unfolding kw_upper
  by (simp add: autoRunEligible_def Let_def)


section \<open>The code block renderer\<close>

lemma lower_tags: "toLowerCase ''sql'' = ''sql''" "toLowerCase ''mongodb'' = ''mongodb''"
  "toLowerCase ''mermaid'' = ''mermaid''"
  by (simp_all add: toLowerCase_def lower_char_def)

lemma language_exec_nonempty: "language_exec s = Some t \<Longrightarrow> t \<noteq> []"
  by (induction s) (auto simp: Let_def split: if_splits)

lemma language_tag_of_fence_tag:
  assumes "t \<noteq> []" "list_all isWordChar t"
  shows "language_tag (Some (''language-'' @ t)) = Some t"
proof -
  have tw: "takeWhile isWordChar t = t"
    using assms(2) by (simp add: list_all_iff)
  have "language_exec (''language-'' @ t) = Some t"
    using assms(1) by (simp add: Let_def tw)
  then show ?thesis
    by (simp add: language_tag_def)
qed

lemma code_kind_classify: "code_kind className = classify (language_tag className)"
proof (cases "language_tag className")
  case None
  then show ?thesis by (simp add: code_kind_def classify_def)
next
  case (Some t)
  then have "t \<noteq> []"
    by (auto simp: language_tag_def dest: language_exec_nonempty)
  with Some show ?thesis
    by (auto simp: code_kind_def classify_def same_ignoring_case_def lower_tags)
qed

lemma language_exec_none: "\<not> includes_str s ''language-'' \<Longrightarrow> language_exec s = None"
  by (induction s) (auto simp: Let_def)

lemma language_tag_leading_run:
  assumes "takeWhile isWordChar t \<noteq> []"
  shows "language_tag (Some (''language-'' @ t)) = Some (takeWhile isWordChar t)"
  using assms by (simp add: language_tag_def Let_def)

lemma no_inner_start:
  "includes_str (''anguage-'' @ t) ''language-'' \<longleftrightarrow> includes_str t ''language-''"
  by simp

lemma language_tag_no_run:
  assumes "takeWhile isWordChar t = []" "\<not> includes_str t ''language-''"
  shows "language_tag (Some (''language-'' @ t)) = None"
proof -
  have "language_exec (''language-'' @ t) = language_exec (''anguage-'' @ t)"
    using assms(1) by (simp add: Let_def)
  also have "\<dots> = None"
    using assms(2) by (intro language_exec_none) (simp add: no_inner_start)
  finally show ?thesis
    by (simp add: language_tag_def)
qed

lemma other_character_tags:
  "code_kind (Some ''language-sql-server'') = Sql" "classify (Some ''sql-server'') = Generic"
  "code_kind (Some ''language-mermaid.js'') = Diagram" "classify (Some ''mermaid.js'') = Generic"
  "code_kind (Some ''language-+sql'') = Plain" "classify (Some ''+sql'') = Generic"
  by code_simp+

text \<open>
  C3, as stated, fails: the class name of a fence is \<open>language-\<close> followed by its tag, and
  the component reads from it only the run of letters, digits and underscores after
  \<open>language-\<close>. The tag \<open>sql-server\<close> is neither sql nor mongodb, yet the block gets the SQL
  rendering; \<open>mermaid.js\<close> is not mermaid, yet the block gets the diagram rendering; and
  the tag \<open>+sql\<close> is not empty, yet the block gets the plain rendering.
\<close>

theorem code_kind_other_character_tag_counterexample:
  "code_kind (Some ''language-sql-server'') = Sql
   \<and> classify (Some ''sql-server'') = Generic
   \<and> code_kind (Some ''language-mermaid.js'') = Diagram
   \<and> classify (Some ''mermaid.js'') = Generic
   \<and> code_kind (Some ''language-+sql'') = Plain
   \<and> classify (Some ''+sql'') = Generic"
  using other_character_tags by simp

text \<open>
  C3, amended. The rendering chosen for a code block is a function of the language tag as
  the component reads it, the case of its letters ignored: the SQL rendering when that
  tag is sql or mongodb, the diagram rendering when it is mermaid, the generic code box
  for any other tag read, and the plain rendering when no tag is read. The tag read is the
  group of the pattern on the class name: for a fence whose tag begins with a letter,
  digit or underscore it is the leading run of such characters of the tag (the whole tag
  when the tag has no other character); for a fence whose tag begins with another
  character and holds no further \<open>language-\<close>, and for a block without a class name, no
  tag is read.
\<close>

theorem code_kind_function_of_tag_read:
  "code_kind className = classify (language_tag className)
   \<and> (takeWhile isWordChar t \<noteq> [] \<longrightarrow>
        language_tag (Some (''language-'' @ t)) = Some (takeWhile isWordChar t)
        \<and> code_kind (Some (''language-'' @ t)) = classify (Some (takeWhile isWordChar t)))
   \<and> (t \<noteq> [] \<and> list_all isWordChar t \<longrightarrow>
        language_tag (Some (''language-'' @ t)) = Some t
        \<and> code_kind (Some (''language-'' @ t)) = classify (Some t))
   \<and> (takeWhile isWordChar t = [] \<and> \<not> includes_str t ''language-'' \<longrightarrow>
        language_tag (Some (''language-'' @ t)) = None
        \<and> code_kind (Some (''language-'' @ t)) = Plain)
   \<and> language_tag None = None \<and> code_kind None = Plain"
proof -
  have "language_tag None = None" "classify None = Plain"
    by (simp_all add: language_tag_def classify_def)
  then show ?thesis
    using language_tag_leading_run[of t] language_tag_of_fence_tag[of t]
      language_tag_no_run[of t] code_kind_classify
    by metis
qed

theorem code_kind_function_of_tag_read_witness:
  "takeWhile isWordChar ''sql-server'' \<noteq> []
   \<and> language_tag (Some ''language-sql-server'') = Some ''sql''
   \<and> code_kind (Some ''language-sql-server'') = Sql
   \<and> ''SQL'' \<noteq> [] \<and> list_all isWordChar ''SQL''
   \<and> language_tag (Some ''language-SQL'') = Some ''SQL''
   \<and> code_kind (Some ''language-SQL'') = Sql
   \<and> takeWhile isWordChar ''+sql'' = [] \<and> \<not> includes_str ''+sql'' ''language-''
   \<and> code_kind (Some ''language-+sql'') = Plain
   \<and> code_kind (Some ''language-Mermaid'') = Diagram
   \<and> code_kind (Some ''language-mongodb'') = Sql
   \<and> code_kind (Some ''language-python'') = Generic"
proof -
  have run: "takeWhile isWordChar ''sql-server'' = ''sql''"
    by code_simp
  have h1: "takeWhile isWordChar ''sql-server'' \<noteq> []"
    unfolding run by simp
  have h2: "''SQL'' \<noteq> [] \<and> list_all isWordChar ''SQL''"
    by code_simp
  have h3: "takeWhile isWordChar ''+sql'' = [] \<and> \<not> includes_str ''+sql'' ''language-''"
    by code_simp
  have c: "classify (Some ''sql'') = Sql" "classify (Some ''SQL'') = Sql"
    by code_simp+
  have "language_tag (Some (''language-'' @ ''sql-server'')) = Some (takeWhile isWordChar ''sql-server'')
        \<and> code_kind (Some (''language-'' @ ''sql-server''))
            = classify (Some (takeWhile isWordChar ''sql-server''))"
    using code_kind_function_of_tag_read[of "Some ''language-sql-server''" "''sql-server''"] h1
    by blast
  then have a: "language_tag (Some ''language-sql-server'') = Some ''sql''
           \<and> code_kind (Some ''language-sql-server'') = Sql"
    unfolding run using c(1) by simp
  have "language_tag (Some (''language-'' @ ''SQL'')) = Some ''SQL''
        \<and> code_kind (Some (''language-'' @ ''SQL'')) = classify (Some ''SQL'')"
    using code_kind_function_of_tag_read[of "Some ''language-SQL''" "''SQL''"] h2
    by blast
  then have b: "language_tag (Some ''language-SQL'') = Some ''SQL''
           \<and> code_kind (Some ''language-SQL'') = Sql"
    using c(2) by simp
  have "code_kind (Some (''language-'' @ ''+sql'')) = Plain"
    using code_kind_function_of_tag_read[of "Some ''language-+sql''" "''+sql''"] h3
    by blast
  then have d: "code_kind (Some ''language-+sql'') = Plain"
    by simp
  have "code_kind (Some ''language-Mermaid'') = Diagram"
    "code_kind (Some ''language-mongodb'') = Sql"
    "code_kind (Some ''language-python'') = Generic"
    by code_simp+
  with a b d h1 h2 h3 show ?thesis
    by simp
qed


section \<open>Table extraction\<close>

lemmas num_defs = parseFloat_def read_signed_def read_unsigned_def read_exponent_def
  round_to_double_def overflow_threshold_def scale10_def digits_value_def digit_value_def
  isDigit_def trimStart_def isWhiteSpace_def Let_def isNaN_def isFinite_def negate_def

lemmas cell_defs = cellValue_def remove_commas_def numeric_pattern_def isDigitOrComma_def

lemmas table_defs = extractTableData_def extractTableData_try_def bind_err_def children_of_def
  tag_is_def row_of_def rowData_of_def set_prop_def element_def text_leaf_def trim_def

lemma not_run_chars: "\<not> isDigitOrComma CHR ''.''" "\<not> isDigitOrComma CHR ''-''"
  by (simp_all add: isDigitOrComma_def isDigit_def)

lemma run_then_rest:
  assumes "list_all P ip" "fr = [] \<or> \<not> P (hd fr)"
  shows "takeWhile P (ip @ fr) = ip" "dropWhile P (ip @ fr) = fr"
  using assms by (cases fr; simp add: list_all_iff takeWhile_append2 dropWhile_append2)+

text \<open>The test of the pattern accepts exactly the texts of the shape the spec describes.\<close>

lemma numeric_pattern_shape: "numeric_pattern v \<longleftrightarrow> numeric_shape v"
proof
  assume np: "numeric_pattern v"
  define s1 where "s1 = (case v of [] \<Rightarrow> [] | c # r \<Rightarrow> if c = CHR ''-'' then r else v)"
  define sgn where "sgn = (case v of [] \<Rightarrow> [] | c # r \<Rightarrow> if c = CHR ''-'' then ''-'' else [])"
  have v: "v = sgn @ s1"
    by (cases v) (auto simp: s1_def sgn_def)
  have sgn: "sgn = [] \<or> sgn = ''-''"
    by (cases v) (auto simp: sgn_def)
  let ?run = "takeWhile isDigitOrComma s1" and ?rest = "dropWhile isDigitOrComma s1"
  from np have run: "?run \<noteq> []"
    and rest: "?rest = [] \<or> (\<exists>fp. ?rest = CHR ''.'' # fp \<and> fp \<noteq> [] \<and> list_all isDigit fp)"
    by (auto simp: numeric_pattern_def Let_def s1_def[symmetric] split: list.splits)
  have "v = sgn @ ?run @ ?rest"
    using v by simp
  moreover have "list_all isDigitOrComma ?run"
    by (simp add: list_all_iff) (meson set_takeWhileD)
  ultimately show "numeric_shape v"
    unfolding numeric_shape_def using sgn run rest by blast
next
  assume "numeric_shape v"
  then obtain sgn ip fr where v: "v = sgn @ ip @ fr"
    and sgn: "sgn = [] \<or> sgn = ''-''"
    and ip: "ip \<noteq> []" "list_all isDigitOrComma ip"
    and fr: "fr = [] \<or> (\<exists>fp. fr = CHR ''.'' # fp \<and> fp \<noteq> [] \<and> list_all isDigit fp)"
    unfolding numeric_shape_def by blast
  from fr have fr': "fr = [] \<or> \<not> isDigitOrComma (hd fr)"
    by (auto simp: not_run_chars)
  have tk: "takeWhile isDigitOrComma (ip @ fr) = ip" "dropWhile isDigitOrComma (ip @ fr) = fr"
    using run_then_rest[OF ip(2) fr'] by simp_all
  from ip obtain c cs where ipc: "ip = c # cs" "isDigitOrComma c"
    by (cases ip) auto
  then have c: "c \<noteq> CHR ''-''"
    using not_run_chars(2) by auto
  have s1: "(case v of [] \<Rightarrow> [] | c # r \<Rightarrow> if c = CHR ''-'' then r else v) = ip @ fr"
    using sgn v ipc(1) c by auto
  show "numeric_pattern v"
    unfolding numeric_pattern_def Let_def s1 tk using ip(1) fr by auto
qed

lemma cellValue_cases:
  "cellValue v =
     (if numeric_shape v \<and> isFinite (parseFloat (remove_commas v))
      then JNum (parseFloat (remove_commas v)) else JStr v)"
  by (auto simp: cellValue_def Let_def numeric_pattern_shape isNaN_def isFinite_def
      split: jsnum.splits)

lemma cell_widget: "cellValue ''Widget'' = JStr ''Widget''"
  by (simp add: cell_defs num_defs)

lemma cell_amount: "cellValue ''1,234.50'' = JNum (Fin 1234.5)"
  by (simp add: cell_defs num_defs)

lemma cell_date: "cellValue ''2023-01'' = JStr ''2023-01''"
  by (simp add: cell_defs num_defs)

lemma cell_mixed: "cellValue ''123abc'' = JStr ''123abc''"
  by (simp add: cell_defs num_defs)

lemma cell_lone_comma: "numeric_pattern '',''" "cellValue '','' = JStr '',''"
  by (simp_all add: cell_defs num_defs)

lemma widget_extracted:
  "extractTableData widget_table =
     Some \<lparr>headers = [''name'', ''amount''],
           data = [[(''name'', JStr ''Widget''), (''amount'', JNum (Fin 1234.5))]]\<rparr>"
  by (simp add: widget_table_def table_defs isWhiteSpace_def cell_widget cell_amount upt_rec)

text \<open>
  C5. A cell text becomes a number exactly when it has, as a whole, the shape "optional
  leading minus, digits and commas, optional decimal point and digits" and the text
  without its commas parses to a finite number; the number is that parsed value, and every
  other cell keeps its text. The table with headers name and amount and the row Widget,
  1,234.50 yields the headers and one row with name the text Widget and amount the number
  1234.5. The date-like text 2023-01 and the mixed text 123abc stay texts; so does a lone
  comma, which has the shape but parses to no number.
\<close>

theorem cell_promoted_iff_numeric_shape_and_finite:
  "cellValue v =
     (if numeric_shape v \<and> isFinite (parseFloat (remove_commas v))
      then JNum (parseFloat (remove_commas v)) else JStr v)
   \<and> ((\<exists>n. cellValue v = JNum n) \<longleftrightarrow>
        numeric_shape v \<and> isFinite (parseFloat (remove_commas v)))
   \<and> (numeric_pattern v \<longleftrightarrow> numeric_shape v)
   \<and> extractTableData widget_table =
       Some \<lparr>headers = [''name'', ''amount''],
             data = [[(''name'', JStr ''Widget''), (''amount'', JNum (Fin 1234.5))]]\<rparr>
   \<and> cellValue ''2023-01'' = JStr ''2023-01''
   \<and> cellValue ''123abc'' = JStr ''123abc''
   \<and> cellValue '','' = JStr '',''"
proof -
  have "(\<exists>n. cellValue v = JNum n) \<longleftrightarrow>
        numeric_shape v \<and> isFinite (parseFloat (remove_commas v))"
    by (simp add: cellValue_cases)
  then show ?thesis
    using cellValue_cases[of v] numeric_pattern_shape[of v] widget_extracted cell_date
      cell_mixed cell_lone_comma(2)
    by blast
qed

lemma find_by_tag_found:
  "find_by_tag t cs = Inr (Some c) \<Longrightarrow> c \<in> set cs \<and> tag_is t c = Inr True"
  by (induction cs) (auto simp: bind_err_def split: sum.splits if_splits)

lemma extract_try_Some:
  assumes "extractTableData_try node = Inr (Some d)"
  shows "has_header_group node \<and> headers d \<noteq> [] \<and> data d \<noteq> []"
proof -
  from assms obtain ty tg v kids where node: "node = Node ty tg v kids"
    by (cases node) (auto simp: extractTableData_try_def bind_err_def children_of_def)
  define cs where "cs = (case kids of None \<Rightarrow> [] | Some cs \<Rightarrow> cs)"
  from assms obtain th where th: "find_by_tag ''thead'' cs = Inr (Some th)"
    unfolding extractTableData_try_def node cs_def
    by (auto simp: bind_err_def children_of_def Let_def split: sum.splits option.splits)
  then have "th \<in> set cs" "tag_is ''thead'' th = Inr True"
    using find_by_tag_found by blast+
  then have "has_header_group node"
    unfolding has_header_group_def node cs_def
    by (auto simp: list_ex_iff split: option.splits)
  moreover from assms have "headers d \<noteq> [] \<and> data d \<noteq> []"
    unfolding extractTableData_try_def
    by (auto simp: bind_err_def Let_def split: sum.splits option.splits if_splits)
  ultimately show ?thesis by simp
qed

lemma extract_Some:
  "extractTableData node = Some d \<Longrightarrow> has_header_group node \<and> headers d \<noteq> [] \<and> data d \<noteq> []"
  using extract_try_Some[of node d]
  by (auto simp: extractTableData_def split: sum.splits)

lemma headless_none: "\<not> has_header_group headless_table" "extractTableData headless_table = None"
  by (simp_all add: headless_table_def has_header_group_def table_defs)

lemma bodiless_none: "extractTableData bodiless_table = None"
  by (simp add: bodiless_table_def table_defs)

lemma headerless_row_none: "extractTableData headerless_row_table = None"
  by (simp add: headerless_row_table_def table_defs)

lemma broken_row_throws: "extractTableData_try broken_row_table = Inl TypeError"
  by (simp add: broken_row_table_def table_defs)

lemma null_child_throws: "extractTableData_try null_child_table = Inl TypeError"
  by (simp add: null_child_table_def table_defs)

lemma nullish_throws: "extractTableData_try Nullish = Inl TypeError"
  by (simp add: table_defs)

text \<open>
  C6. Extraction yields no dataset when the root has no header group among its children,
  and a dataset it yields has at least one header and at least one data row, so zero
  headers found or zero data rows also mean no dataset. No error leaves the extractor: an
  error thrown inside, as on a missing node, a \<open>null\<close> child or a row without children,
  ends as no dataset.
\<close>

theorem extraction_degrades_to_no_dataset:
  "(\<not> has_header_group node \<longrightarrow> extractTableData node = None)
   \<and> (extractTableData node = Some d \<longrightarrow> headers d \<noteq> [] \<and> data d \<noteq> [])
   \<and> (extractTableData_try node = Inl e \<longrightarrow> extractTableData node = None)
   \<and> extractTableData bodiless_table = None
   \<and> extractTableData headerless_row_table = None"
proof -
  have "extractTableData node = None" if "\<not> has_header_group node"
    using that extract_Some[of node] by (cases "extractTableData node") auto
  moreover have "extractTableData node = None" if "extractTableData_try node = Inl e"
    using that by (simp add: extractTableData_def)
  ultimately show ?thesis
    using extract_Some[of node d] bodiless_none headerless_row_none by blast
qed

theorem extraction_degrades_to_no_dataset_witness:
  "\<not> has_header_group headless_table \<and> extractTableData headless_table = None
   \<and> extractTableData widget_table =
       Some \<lparr>headers = [''name'', ''amount''],
             data = [[(''name'', JStr ''Widget''), (''amount'', JNum (Fin 1234.5))]]\<rparr>
   \<and> [''name'', ''amount''] \<noteq> []
   \<and> extractTableData_try broken_row_table = Inl TypeError
   \<and> extractTableData broken_row_table = None
   \<and> extractTableData_try null_child_table = Inl TypeError
   \<and> extractTableData null_child_table = None
   \<and> extractTableData_try Nullish = Inl TypeError
   \<and> extractTableData Nullish = None"
proof -
  have "extractTableData headless_table = None"
    using extraction_degrades_to_no_dataset[of headless_table] headless_none(1) by blast
  moreover have "extractTableData broken_row_table = None"
    using extraction_degrades_to_no_dataset[of broken_row_table _ TypeError] broken_row_throws
    by blast
  moreover have "extractTableData null_child_table = None"
    using extraction_degrades_to_no_dataset[of null_child_table _ TypeError] null_child_throws
    by blast
  moreover have "extractTableData Nullish = None"
    using extraction_degrades_to_no_dataset[of Nullish _ TypeError] nullish_throws by blast
  moreover have "headers \<lparr>headers = [''name'', ''amount''],
      data = [[(''name'', JStr ''Widget''), (''amount'', JNum (Fin 1234.5))]]\<rparr> \<noteq> []"
    using extraction_degrades_to_no_dataset[of widget_table
        "\<lparr>headers = [''name'', ''amount''],
          data = [[(''name'', JStr ''Widget''), (''amount'', JNum (Fin 1234.5))]]\<rparr>"]
      widget_extracted
    by blast
  ultimately show ?thesis
    using headless_none(1) widget_extracted broken_row_throws null_child_throws nullish_throws
    by simp
qed


section \<open>The numeric columns of the visualizer\<close>







section \<open>The CSV export\<close>

lemma split_on_no_sep: "sep \<notin> set x \<Longrightarrow> split_on sep x = [x]"
  by (induction x) auto

lemma split_on_append: "sep \<notin> set x \<Longrightarrow> split_on sep (x @ sep # r) = x # split_on sep r"
  by (induction x) auto

lemma split_on_join:
  assumes "xs \<noteq> []" "\<forall>x \<in> set xs. sep \<notin> set x"
  shows "split_on sep (join [sep] xs) = xs"
  using assms
proof (induction "[sep]" xs rule: join.induct)
  case 1
  then show ?case by simp
next
  case (2 x)
  then show ?case by (simp add: split_on_no_sep)
next
  case (3 x y ys)
  then show ?case by (simp add: split_on_append)
qed

lemma set_join: "set (join sep xs) \<subseteq> set sep \<union> \<Union> (set ` set xs)"
  by (induction sep xs rule: join.induct) auto

lemma newline_free_join:
  assumes "\<forall>x \<in> set xs. CHR ''\<newline>'' \<notin> set x"
  shows "CHR ''\<newline>'' \<notin> set (join '','' xs)"
  using set_join[of "'',''" xs] assms by auto

lemma csv_round_trip:
  assumes hs: "hs \<noteq> []"
    and clean: "\<forall>h \<in> set hs. CHR '','' \<notin> set h \<and> CHR ''\<newline>'' \<notin> set h"
    and cells: "\<forall>row \<in> set dat. \<forall>h \<in> set hs.
                  CHR ''\<newline>'' \<notin> set (template_text numberText (get_prop row h))"
  shows "split_on CHR ''\<newline>'' (csvContent numberText hs dat) =
           join '','' hs # map (\<lambda>row. join '','' (map (quoted_cell numberText row) hs)) dat"
    and "split_on CHR '','' (hd (split_on CHR ''\<newline>'' (csvContent numberText hs dat))) = hs"
    and "length (tl (split_on CHR ''\<newline>'' (csvContent numberText hs dat))) = length dat"
proof -
  let ?lines = "join '','' hs # map (\<lambda>row. join '','' (map (quoted_cell numberText row) hs)) dat"
  have head: "CHR ''\<newline>'' \<notin> set (join '','' hs)"
    using clean by (intro newline_free_join) auto
  have "CHR ''\<newline>'' \<notin> set (join '','' (map (quoted_cell numberText row) hs))" if "row \<in> set dat" for row
    using cells that by (intro newline_free_join) (auto simp: quoted_cell_def dquote_def)
  with head have "\<forall>l \<in> set ?lines. CHR ''\<newline>'' \<notin> set l"
    by auto
  then have "split_on CHR ''\<newline>'' (join ''\<newline>'' ?lines) = ?lines"
    by (intro split_on_join) auto
  then show lines: "split_on CHR ''\<newline>'' (csvContent numberText hs dat) = ?lines"
    by (simp add: csvContent_def)
  show "split_on CHR '','' (hd (split_on CHR ''\<newline>'' (csvContent numberText hs dat))) = hs"
    unfolding lines using hs clean by (simp add: split_on_join)
  show "length (tl (split_on CHR ''\<newline>'' (csvContent numberText hs dat))) = length dat"
    unfolding lines by simp
qed

lemma comma_header_split:
  "split_on CHR '','' (hd (split_on CHR ''\<newline>'' (csvContent zero_text [''Revenue, USD''] comma_header_rows)))
     = [''Revenue'', '' USD'']"
  by (simp add: csvContent_def comma_header_rows_def quoted_cell_def dquote_def template_text_def
      get_prop_def)

lemma multiline_split:
  "length (tl (split_on CHR ''\<newline>'' (csvContent zero_text [''note''] multiline_rows))) = 2"
  by (simp add: csvContent_def multiline_rows_def quoted_cell_def dquote_def template_text_def
      get_prop_def)

text \<open>
  C9, as stated, fails: the header line is written without quotes, so a header that holds
  a comma comes back as two headers; a value that holds a line break comes back as two
  rows; and of a dataset without headers the first line comes back as one empty header.
\<close>

theorem csv_round_trip_counterexample:
  "split_on CHR '','' (hd (split_on CHR ''\<newline>'' (csvContent zero_text [''Revenue, USD''] comma_header_rows)))
     \<noteq> [''Revenue, USD'']
   \<and> length comma_header_rows = 1
   \<and> length (tl (split_on CHR ''\<newline>'' (csvContent zero_text [''note''] multiline_rows)))
     \<noteq> length multiline_rows
   \<and> split_on CHR '','' (hd (split_on CHR ''\<newline>'' (csvContent zero_text [] [[]]))) \<noteq> []"
proof -
  have "length comma_header_rows = 1" "length multiline_rows = 1"
    by (simp_all add: comma_header_rows_def multiline_rows_def)
  moreover have "split_on CHR '','' (hd (split_on CHR ''\<newline>'' (csvContent zero_text [] [[]]))) \<noteq> []"
    by (simp add: csvContent_def)
  ultimately show ?thesis
    unfolding comma_header_split multiline_split by simp
qed

text \<open>
  C9, amended. For every dataset with at least one header, whose headers hold no comma and
  no line break and whose values, as the export writes them, hold no line break: the
  export is the header row first, the headers in their declared order joined by commas,
  then one line per data row with every value of the row, in header order, wrapped in
  double quotes on its own; splitting the export by line and its first line by comma
  gives back the identical headers and as many further lines as there are rows.
\<close>

theorem csv_export_round_trip:
  assumes "hs \<noteq> []"
    and "\<forall>h \<in> set hs. CHR '','' \<notin> set h \<and> CHR ''\<newline>'' \<notin> set h"
    and "\<forall>row \<in> set dat. \<forall>h \<in> set hs.
           CHR ''\<newline>'' \<notin> set (template_text numberText (get_prop row h))"
  shows "split_on CHR ''\<newline>'' (csvContent numberText hs dat) =
           join '','' hs
           # map (\<lambda>row. join '','' (map (\<lambda>h. dquote @ template_text numberText (get_prop row h) @ dquote) hs)) dat
         \<and> split_on CHR '','' (hd (split_on CHR ''\<newline>'' (csvContent numberText hs dat))) = hs
         \<and> length (tl (split_on CHR ''\<newline>'' (csvContent numberText hs dat))) = length dat"
proof -
  have "quoted_cell numberText row
        = (\<lambda>h. dquote @ template_text numberText (get_prop row h) @ dquote)" for row
    by (rule ext) (simp add: quoted_cell_def)
  with csv_round_trip[OF assms] show ?thesis
    by simp
qed

theorem csv_export_round_trip_witness:
  "[''city'', ''note''] \<noteq> []
   \<and> list_all (\<lambda>h. CHR '','' \<notin> set h \<and> CHR ''\<newline>'' \<notin> set h) [''city'', ''note'']
   \<and> list_all (\<lambda>row. list_all (\<lambda>h. CHR ''\<newline>'' \<notin> set (template_text zero_text (get_prop row h)))
                         [''city'', ''note'']) city_rows
   \<and> split_on CHR '','' (hd (split_on CHR ''\<newline>'' (csvContent zero_text [''city'', ''note''] city_rows)))
       = [''city'', ''note'']
   \<and> length (tl (split_on CHR ''\<newline>'' (csvContent zero_text [''city'', ''note''] city_rows))) = 2
   \<and> length city_rows = 2"
proof -
  have h1: "[''city'', ''note''] \<noteq> []"
    by simp
  have h2: "\<forall>h \<in> set [''city'', ''note'']. CHR '','' \<notin> set h \<and> CHR ''\<newline>'' \<notin> set h"
    by simp
  have h3: "\<forall>row \<in> set city_rows. \<forall>h \<in> set [''city'', ''note''].
              CHR ''\<newline>'' \<notin> set (template_text zero_text (get_prop row h))"
    by (simp add: city_rows_def template_text_def get_prop_def)
  have n: "length city_rows = 2"
    by (simp add: city_rows_def)
  from csv_export_round_trip[OF h1 h2 h3] h1 h2 h3 n show ?thesis
    by (simp add: list_all_iff)
qed

section \<open>Running queries\<close>

lemma no_context_no_op: "handleRunQuery site None sql st = st"
  by (simp add: handleRunQuery_def)

lemma run_events_snoc: "run_events msg (evs @ [ev]) = step msg (run_events msg evs) ev"
  by (simp add: run_events_def)

lemma step_last_settled_shown:
  assumes "last_settled_shown st"
  shows "last_settled_shown (step msg st ev)"
proof (cases ev)
  case (Render ctx)
  show ?thesis
    using assms unfolding Render
    by (auto simp: step_def autoRunEffect_def last_settled_shown_def handleRunQuery_def
        split: option.splits)
next
  case (RunClick sql)
  show ?thesis
    using assms unfolding RunClick
    by (auto simp: step_def last_settled_shown_def handleRunQuery_def split: option.splits)
next
  case (Settle i outcome)
  show ?thesis
    using assms unfolding Settle
    by (auto simp: step_def last_settled_shown_def handleRunQuery_resume_def)
qed

lemma step_calls_accounted:
  assumes "calls_accounted st"
  shows "calls_accounted (step msg st ev)"
proof (cases ev)
  case (Render ctx)
  show ?thesis
    using assms unfolding Render
    by (auto simp: step_def autoRunEffect_def calls_accounted_def handleRunQuery_def
        split: option.splits)
next
  case (RunClick sql)
  show ?thesis
    using assms unfolding RunClick
    by (auto simp: step_def calls_accounted_def handleRunQuery_def split: option.splits)
next
  case (Settle i outcome)
  show ?thesis
    using assms unfolding Settle
    by (auto simp: step_def calls_accounted_def handleRunQuery_resume_def distinct_removeAll)
qed

lemma run_invariants: "last_settled_shown (run_events msg evs) \<and> calls_accounted (run_events msg evs)"
proof (induction evs rule: rev_induct)
  case Nil
  show ?case
    by (simp add: run_events_def initial_state_def last_settled_shown_def calls_accounted_def)
next
  case (snoc ev evs)
  then show ?case
    by (simp add: run_events_snoc step_last_settled_shown step_calls_accounted)
qed

text \<open>
  C10. A run asked for while there is no connection context does nothing: the state
  after \<open>handleRunQuery\<close> is the state before it, so the executing flag is not set, no call
  to the backend is recorded and the result on display stays; and pressing a run button
  in a state without a context leaves the state as it is.
\<close>

theorem run_without_context_is_noop:
  "handleRunQuery site None sql st = st
   \<and> isExecuting (handleRunQuery site None sql st) = isExecuting st
   \<and> requests (handleRunQuery site None sql st) = requests st
   \<and> in_flight (handleRunQuery site None sql st) = in_flight st
   \<and> executionResult (handleRunQuery site None sql st) = executionResult st
   \<and> (dbContext st = None \<longrightarrow> step msg st (RunClick sql) = st)"
  by (simp add: no_context_no_op step_def)

theorem run_without_context_is_noop_witness:
  "dbContext initial_state = None
   \<and> step one_block_message initial_state (RunClick ''SELECT 1'') = initial_state
   \<and> requests (step one_block_message initial_state (RunClick ''SELECT 1'')) = []"
proof -
  have h: "dbContext initial_state = None"
    by (simp add: initial_state_def)
  with run_without_context_is_noop[of RunButton "''SELECT 1''" initial_state one_block_message]
  have "step one_block_message initial_state (RunClick ''SELECT 1'') = initial_state"
    by blast
  with h show ?thesis
    by (simp add: initial_state_def)
qed

lemma overtaking_final:
  "in_flight (run_events one_block_message overtaking_events) = []"
  "requests (run_events one_block_message overtaking_events)
     = [(AutoRun, ''db'', ''SELECT 1''), (RunButton, ''db'', ''SELECT 1'')]"
  "map fst (settled (run_events one_block_message overtaking_events)) = [1, 0]"
  "executionResult (run_events one_block_message overtaking_events) = Some (result_of timeout_answer)"
  "result_of timeout_answer \<noteq> result_of rows_answer"
  by code_simp+

text \<open>
  C2, as stated, fails: the automatic run of a block is in flight, the run button issues a
  second call, the second call comes back first with rows and the first afterwards with an
  error. When both have come back the error of the earlier run is on display, not the
  rows of the most recently issued one.
\<close>

theorem stale_result_shown_counterexample:
  "in_flight (run_events one_block_message overtaking_events) = []
   \<and> requests (run_events one_block_message overtaking_events)
       = [(AutoRun, ''db'', ''SELECT 1''), (RunButton, ''db'', ''SELECT 1'')]
   \<and> settled (run_events one_block_message overtaking_events)
       = [(1, rows_answer), (0, timeout_answer)]
   \<and> executionResult (run_events one_block_message overtaking_events)
       = Some (result_of timeout_answer)
   \<and> executionResult (run_events one_block_message overtaking_events)
       \<noteq> Some (result_of rows_answer)"
proof -
  have "settled (run_events one_block_message overtaking_events)
       = [(1, rows_answer), (0, timeout_answer)]"
    by code_simp
  then show ?thesis
    using overtaking_final by simp
qed

text \<open>
  C2, amended. For every sequence of renders, runs and returning calls of one message:
  once every call has come back, the result on display is the one stored for the call
  that came back last, whichever run issued it (and nothing is on display when no call
  was made). Every call made is either still in flight or has come back exactly once.
\<close>

theorem last_returned_result_is_shown:
  "(in_flight (run_events msg evs) = [] \<longrightarrow>
      executionResult (run_events msg evs) =
        (if settled (run_events msg evs) = [] then None
         else Some (result_of (snd (last (settled (run_events msg evs)))))))
   \<and> distinct (map fst (settled (run_events msg evs)) @ in_flight (run_events msg evs))
   \<and> set (map fst (settled (run_events msg evs)) @ in_flight (run_events msg evs))
       = {..<length (requests (run_events msg evs))}"
  using run_invariants[of msg evs]
  unfolding last_settled_shown_def calls_accounted_def by blast

theorem last_returned_result_is_shown_witness:
  "in_flight (run_events one_block_message in_order_events) = []
   \<and> settled (run_events one_block_message in_order_events)
       = [(0, timeout_answer), (1, rows_answer)]
   \<and> executionResult (run_events one_block_message in_order_events) = Some (result_of rows_answer)"
proof -
  have a: "in_flight (run_events one_block_message in_order_events) = []"
    by code_simp
  have b: "settled (run_events one_block_message in_order_events)
       = [(0, timeout_answer), (1, rows_answer)]"
    by code_simp
  from last_returned_result_is_shown[of one_block_message in_order_events] a
  have "executionResult (run_events one_block_message in_order_events) =
        (if settled (run_events one_block_message in_order_events) = [] then None
         else Some (result_of (snd (last (settled (run_events one_block_message in_order_events))))))"
    by blast
  with a b show ?thesis
    by simp
qed

section \<open>The automatic run\<close>


lemma step_auto_once:
  assumes "(\<not> hasAutoRun st \<longrightarrow> auto_requests st = []) \<and> length (auto_requests st) \<le> 1"
  shows "(\<not> hasAutoRun (step msg st ev) \<longrightarrow> auto_requests (step msg st ev) = [])
         \<and> length (auto_requests (step msg st ev)) \<le> 1"
  using assms
  by (cases ev)
     (auto simp: step_def autoRunEffect_def handleRunQuery_def handleRunQuery_resume_def
        auto_requests_def split: option.splits)

lemma auto_at_most_once:
  "(\<not> hasAutoRun (run_events msg evs) \<longrightarrow> auto_requests (run_events msg evs) = [])
   \<and> length (auto_requests (run_events msg evs)) \<le> 1"
proof (induction evs rule: rev_induct)
  case Nil
  show ?case by (simp add: run_events_def initial_state_def auto_requests_def)
next
  case (snoc ev evs)
  then show ?case
    unfolding run_events_snoc by (rule step_auto_once)
qed

lemma two_sql_run:
  "auto_requests (run_events two_sql_message
      [Render (Some demo_context), Render (Some demo_context), RunClick ''SELECT 2'',
       Render (Some demo_context)])
     = [(AutoRun, ''db'', ''select 1'')]"
  by code_simp

lemma two_block_run:
  "requests (run_events two_block_message [Render (Some demo_context), Render (Some demo_context)])
     = [(AutoRun, ''db'', ''SELECT 2'')]"
  by code_simp

lemma both_blocks_sql:
  "code_kind (Some ''language-SQL'') = Sql" "code_kind (Some ''language-sql'') = Sql"
  "autoRunEligible ''SELECT 1''" "autoRunEligible ''SELECT 2''"
  by code_simp+

text \<open>
  C1. The automatic run fires at most once for a rendered message, whatever renders,
  button presses and returning calls follow one another, and of two fences tagged \<open>sql\<close>
  that both begin with SELECT only the first is sent, also after further renders. The
  code departs from the claim where the first block that gets the SQL rendering is tagged
  in capitals: of a block tagged \<open>SQL\<close> and a later block tagged \<open>sql\<close>, both rendered as SQL
  and both beginning with SELECT, the effect passes the text of the second to the
  backend, because its pattern is matched against the raw content and knows the lower
  case spelling only, while the renderer lowers the case of the tag first.
\<close>

theorem auto_run_once_but_skips_capital_fence:
  "length (auto_requests (run_events msg evs)) \<le> 1
   \<and> auto_requests (run_events two_sql_message
        [Render (Some demo_context), Render (Some demo_context), RunClick ''SELECT 2'',
         Render (Some demo_context)])
       = [(AutoRun, ''db'', ''select 1'')]
   \<and> content two_block_message = fence ''SQL'' ''SELECT 1'' @ ''\<newline>'' @ fence ''sql'' ''SELECT 2''
   \<and> code_kind (Some ''language-SQL'') = Sql
   \<and> code_kind (Some ''language-sql'') = Sql
   \<and> autoRunEligible ''SELECT 1''
   \<and> autoRunEligible ''SELECT 2''
   \<and> requests (run_events two_block_message [Render (Some demo_context), Render (Some demo_context)])
       = [(AutoRun, ''db'', ''SELECT 2'')]"
  using auto_at_most_once[of msg evs] two_sql_run two_block_run both_blocks_sql
  by (simp add: two_block_message_def)

end
